theory Spec2Isabelle
  imports Main "HOL-Library.Word"
begin

unbundle bit_operations_syntax

section \<open>Data model\<close>

type_synonym u8 = "8 word"
type_synonym u16 = "16 word"
type_synonym u32 = "32 word"
type_synonym u64 = "64 word"

text \<open>
  \<^verbatim>\<open>const uint8_t * data\<close> is a pointer, and the length of the buffer is stated
  separately in \<^verbatim>\<open>size\<close>. The memory reached through the pointer is a function
  from the offset \<^verbatim>\<open>p - data\<close> to the byte stored there. An offset at or beyond the
  stated size lies outside the caller's buffer: C gives such an access no meaning, the
  model gives it the byte that happens to be there and records the offset, so that the
  access is visible.
\<close>

type_synonym buffer = "nat \<Rightarrow> u8"

text \<open>The error codes used by \<^verbatim>\<open>MessageHeader.cpp\<close>.\<close>

datatype CHIP_ERROR =
    CHIP_NO_ERROR
  | CHIP_ERROR_INVALID_ARGUMENT
  | CHIP_ERROR_VERSION_MISMATCH

text \<open>
  The members of \<^verbatim>\<open>class MessageHeader\<close>. \<^verbatim>\<open>Optional<NodeId>\<close> is an
  \<open>option\<close>: \<^verbatim>\<open>HasValue()\<close> is \<open>\<noteq> None\<close>, \<^verbatim>\<open>SetValue(v)\<close> stores \<open>Some v\<close>,
  \<^verbatim>\<open>ClearValue()\<close> stores \<open>None\<close>.
\<close>

record MessageHeader =
  mMessageId :: u32
  mSourceNodeId :: "u64 option"
  mDestinationNodeId :: "u64 option"

subsection \<open>Constants of the anonymous namespace\<close>

text \<open>\<^verbatim>\<open>size_t\<close> values are natural numbers: every subtraction in the file is
  guarded by a comparison, so no \<^verbatim>\<open>size_t\<close> wraps around.\<close>

definition kFixedHeaderSizeBytes :: nat where
  "kFixedHeaderSizeBytes = 6"

definition kNodeIdSizeBytes :: nat where
  "kNodeIdSizeBytes = 8"

definition kFlagDestinationNodeIdPresent :: u16 where
  "kFlagDestinationNodeIdPresent = 0x0100"

definition kFlagSourceNodeIdPresent :: u16 where
  "kFlagSourceNodeIdPresent = 0x0200"

definition kVersionMask :: u16 where
  "kVersionMask = 0xF000"

definition kVersionShift :: nat where
  "kVersionShift = 12"

text \<open>
  \<^verbatim>\<open>kHeaderVersion\<close> is declared in \<^verbatim>\<open>MessageHeader.h\<close>, not in
  \<^verbatim>\<open>MessageHeader.cpp\<close>. It is compared with an \<^verbatim>\<open>int\<close> in \<^verbatim>\<open>Decode\<close> and
  shifted as an \<^verbatim>\<open>int\<close> in \<^verbatim>\<open>Encode\<close>, so every operation below takes it as a
  parameter \<open>kHeaderVersion :: int\<close>.
\<close>

section \<open>Little-endian helpers\<close>

text \<open>
  Modelled from the spec: the helpers \<^verbatim>\<open>chip::Encoding::LittleEndian::Read16/32/64\<close>
  and \<^verbatim>\<open>Write16/32/64\<close> of \<^verbatim>\<open>core/CHIPEncoding.h\<close>, which are defined outside
  \<^verbatim>\<open>MessageHeader.cpp\<close>. Each takes the pointer by reference, reads or writes the integer
  little-endian (least significant byte first) at the pointer and advances the pointer
  by the width of the integer; the assertion \<^verbatim>\<open>p - data == kFixedHeaderSizeBytes\<close>
  after \<^verbatim>\<open>Read16\<close> and \<^verbatim>\<open>Read32\<close> relies on this advance.
\<close>

fun get_le :: "buffer \<Rightarrow> nat \<Rightarrow> nat \<Rightarrow> nat" where
  "get_le data p 0 = 0"
| "get_le data p (Suc n) = unat (data p) + 256 * get_le data (Suc p) n"

fun put_le :: "buffer \<Rightarrow> nat \<Rightarrow> nat \<Rightarrow> nat \<Rightarrow> buffer" where
  "put_le data p 0 v = data"
| "put_le data p (Suc n) v = put_le (data(p := of_nat v)) (Suc p) n (v div 256)"

text \<open>
  A read cursor: the offset \<^verbatim>\<open>p - data\<close> and the offsets dereferenced so far, in the
  order of the accesses. A read of \<open>n\<close> bytes at offset \<open>p\<close> dereferences the offsets
  \<open>p\<close> to \<open>p + n - 1\<close> and leaves the cursor at \<open>p + n\<close>.
\<close>

record cursor =
  cur_p :: nat
  cur_reads :: "nat list"

definition advance :: "cursor \<Rightarrow> nat \<Rightarrow> cursor" where
  "advance c n = \<lparr>cur_p = cur_p c + n, cur_reads = cur_reads c @ [cur_p c ..< cur_p c + n]\<rparr>"

text \<open>
  Modelled from the spec: \<^verbatim>\<open>LittleEndian::Read16\<close>, \<^verbatim>\<open>Read32\<close> and \<^verbatim>\<open>Read64\<close> of
  \<^verbatim>\<open>core/CHIPEncoding.h\<close>, returning the value read and the advanced cursor.
\<close>

definition Read16 :: "buffer \<Rightarrow> cursor \<Rightarrow> u16 \<times> cursor" where
  "Read16 data c = (of_nat (get_le data (cur_p c) 2), advance c 2)"

definition Read32 :: "buffer \<Rightarrow> cursor \<Rightarrow> u32 \<times> cursor" where
  "Read32 data c = (of_nat (get_le data (cur_p c) 4), advance c 4)"

definition Read64 :: "buffer \<Rightarrow> cursor \<Rightarrow> u64 \<times> cursor" where
  "Read64 data c = (of_nat (get_le data (cur_p c) 8), advance c 8)"

text \<open>
  Modelled from the spec: \<^verbatim>\<open>LittleEndian::Write16\<close>, \<^verbatim>\<open>Write32\<close> and \<^verbatim>\<open>Write64\<close>
  of \<^verbatim>\<open>core/CHIPEncoding.h\<close>. A write position is the memory together with the
  offset \<^verbatim>\<open>p - data\<close>; a write returns the updated memory and the advanced offset.
\<close>

definition Write16 :: "buffer \<times> nat \<Rightarrow> u16 \<Rightarrow> buffer \<times> nat" where
  "Write16 w v = (put_le (fst w) (snd w) 2 (unat v), snd w + 2)"

definition Write32 :: "buffer \<times> nat \<Rightarrow> u32 \<Rightarrow> buffer \<times> nat" where
  "Write32 w v = (put_le (fst w) (snd w) 4 (unat v), snd w + 4)"

definition Write64 :: "buffer \<times> nat \<Rightarrow> u64 \<Rightarrow> buffer \<times> nat" where
  "Write64 w v = (put_le (fst w) (snd w) 8 (unat v), snd w + 8)"

section \<open>MessageHeader::EncodeSizeBytes\<close>

definition EncodeSizeBytes :: "MessageHeader \<Rightarrow> nat" where
  "EncodeSizeBytes this =
    (let size0 = kFixedHeaderSizeBytes;
         size1 = (if mSourceNodeId this \<noteq> None then size0 + kNodeIdSizeBytes else size0);
         size2 = (if mDestinationNodeId this \<noteq> None then size1 + kNodeIdSizeBytes else size1)
     in size2)"

section \<open>MessageHeader::Decode\<close>

text \<open>
  What a call leaves behind: the returned error code, the object, and the locals
  \<^verbatim>\<open>p\<close> (as the cursor, with the offsets it dereferenced) and \<^verbatim>\<open>size\<close> (the
  remaining-size counter) at the label \<^verbatim>\<open>exit\<close>.
\<close>

record decode_exit =
  d_err :: CHIP_ERROR
  d_this :: MessageHeader
  d_cursor :: cursor
  d_size :: nat

text \<open>Lines 83 to 92: the destination node id.\<close>

definition Decode_destination ::
  "buffer \<Rightarrow> u16 \<Rightarrow> MessageHeader \<Rightarrow> cursor \<Rightarrow> nat \<Rightarrow> decode_exit" where
  "Decode_destination data header this c sz =
    (if header AND kFlagDestinationNodeIdPresent \<noteq> 0 then
       if \<not> kNodeIdSizeBytes \<le> sz then
         \<lparr>d_err = CHIP_ERROR_INVALID_ARGUMENT, d_this = this, d_cursor = c, d_size = sz\<rparr>
       else
         let (v, c') = Read64 data c
         in \<lparr>d_err = CHIP_NO_ERROR, d_this = this\<lparr>mDestinationNodeId := Some v\<rparr>,
              d_cursor = c', d_size = sz - kFixedHeaderSizeBytes\<rparr>
     else
       \<lparr>d_err = CHIP_NO_ERROR, d_this = this\<lparr>mDestinationNodeId := None\<rparr>,
        d_cursor = c, d_size = sz\<rparr>)"

text \<open>Lines 72 to 81, the source node id, followed by the destination.\<close>

definition Decode_source ::
  "buffer \<Rightarrow> u16 \<Rightarrow> MessageHeader \<Rightarrow> cursor \<Rightarrow> nat \<Rightarrow> decode_exit" where
  "Decode_source data header this c sz =
    (if header AND kFlagSourceNodeIdPresent \<noteq> 0 then
       if \<not> kNodeIdSizeBytes \<le> sz then
         \<lparr>d_err = CHIP_ERROR_INVALID_ARGUMENT, d_this = this, d_cursor = c, d_size = sz\<rparr>
       else
         let (v, c') = Read64 data c
         in Decode_destination data header (this\<lparr>mSourceNodeId := Some v\<rparr>) c'
              (sz - kFixedHeaderSizeBytes)
     else
       Decode_destination data header (this\<lparr>mSourceNodeId := None\<rparr>) c sz)"

text \<open>The whole function, from the entry to \<^verbatim>\<open>exit\<close>.\<close>

definition Decode_run :: "int \<Rightarrow> buffer \<Rightarrow> nat \<Rightarrow> MessageHeader \<Rightarrow> decode_exit" where
  "Decode_run kHeaderVersion data sz this =
    (let c0 = \<lparr>cur_p = 0, cur_reads = []\<rparr> in
     if \<not> kFixedHeaderSizeBytes \<le> sz then
       \<lparr>d_err = CHIP_ERROR_INVALID_ARGUMENT, d_this = this, d_cursor = c0, d_size = sz\<rparr>
     else
       let (header, c1) = Read16 data c0;
           version = uint (drop_bit kVersionShift (header AND kVersionMask))
       in
         if \<not> version = kHeaderVersion then
           \<lparr>d_err = CHIP_ERROR_VERSION_MISMATCH, d_this = this, d_cursor = c1, d_size = sz\<rparr>
         else
           let (v, c2) = Read32 data c1
           in Decode_source data header (this\<lparr>mMessageId := v\<rparr>) c2
                (sz - kFixedHeaderSizeBytes))"

text \<open>What the caller sees: the returned code and the object.\<close>

definition Decode :: "int \<Rightarrow> buffer \<Rightarrow> nat \<Rightarrow> MessageHeader \<Rightarrow> CHIP_ERROR \<times> MessageHeader" where
  "Decode kHeaderVersion data sz this =
    (let r = Decode_run kHeaderVersion data sz this in (d_err r, d_this r))"

section \<open>MessageHeader::Encode\<close>

text \<open>
  Lines 103 and 107 to 114: the header word. \<^verbatim>\<open>kHeaderVersion << kVersionShift\<close> is
  computed on \<^verbatim>\<open>int\<close> and converted to \<^verbatim>\<open>uint16_t\<close>, which keeps the low 16
  bits.
\<close>

definition Encode_header :: "int \<Rightarrow> MessageHeader \<Rightarrow> u16" where
  "Encode_header kHeaderVersion this =
    (let header0 = (word_of_int (push_bit kVersionShift kHeaderVersion) :: u16);
         header1 = (if mSourceNodeId this \<noteq> None
                    then header0 OR kFlagSourceNodeIdPresent else header0);
         header2 = (if mDestinationNodeId this \<noteq> None
                    then header1 OR kFlagDestinationNodeIdPresent else header1)
     in header2)"

text \<open>
  The result is the returned code, the memory behind \<^verbatim>\<open>data\<close> and the value of
  \<^verbatim>\<open>*encode_size\<close>; \<open>es\<close> is the value \<^verbatim>\<open>*encode_size\<close> had before the call.
  Nothing is written before the capacity check.
\<close>

definition Encode ::
  "int \<Rightarrow> MessageHeader \<Rightarrow> buffer \<Rightarrow> nat \<Rightarrow> nat \<Rightarrow> CHIP_ERROR \<times> buffer \<times> nat" where
  "Encode kHeaderVersion this data sz es =
    (if \<not> EncodeSizeBytes this \<le> sz then (CHIP_ERROR_INVALID_ARGUMENT, data, es)
     else
       let header = Encode_header kHeaderVersion this;
           w1 = Write16 (data, 0) header;
           w2 = Write32 w1 (mMessageId this);
           w3 = (case mSourceNodeId this of Some v \<Rightarrow> Write64 w2 v | None \<Rightarrow> w2);
           w4 = (case mDestinationNodeId this of Some v \<Rightarrow> Write64 w3 v | None \<Rightarrow> w3)
       in (CHIP_NO_ERROR, fst w4, snd w4))"

section \<open>Vocabulary of the statements\<close>

text \<open>A buffer given by its bytes; the memory behind it holds zeros.\<close>

definition buffer_of :: "u8 list \<Rightarrow> buffer" where
  "buffer_of xs = (\<lambda>i. if i < length xs then xs ! i else 0)"

text \<open>The first \<open>n\<close> bytes of a buffer.\<close>

definition bytes :: "buffer \<Rightarrow> nat \<Rightarrow> u8 list" where
  "bytes data n = map data [0..<n]"

text \<open>The 16-bit little-endian word at offset 0, as line 63 reads it.\<close>

definition header_word :: "buffer \<Rightarrow> u16" where
  "header_word data = of_nat (get_le data 0 2)"

text \<open>Its top four bits, as line 64 extracts them.\<close>

definition version_of :: "buffer \<Rightarrow> int" where
  "version_of data = uint (drop_bit kVersionShift (header_word data AND kVersionMask))"

text \<open>A header object before any call.\<close>

definition empty_header :: MessageHeader where
  "empty_header = \<lparr>mMessageId = 0, mSourceNodeId = None, mDestinationNodeId = None\<rparr>"

text \<open>
  Concrete buffers. \<open>buf20\<close> and \<open>buf21\<close> carry version 1 and both presence flags in
  20 and 21 bytes; \<open>buf_v0\<close> carries version 0 and the source flag in 6 bytes;
  \<open>buf_src\<close> and \<open>buf_dst\<close> carry version 1 and one flag each in 13 bytes;
  \<open>buf_plain\<close> carries version 1 and no flag in 6 bytes.
\<close>

definition buf20 :: buffer where
  "buf20 = buffer_of [0x00, 0x13, 0x04, 0x03, 0x02, 0x01,
                      0x88, 0x77, 0x66, 0x55, 0x44, 0x33, 0x22, 0x11,
                      0xA8, 0xA7, 0xA6, 0xA5, 0xA4, 0xA3]"

definition buf21 :: buffer where
  "buf21 = buffer_of [0x00, 0x13, 0x2A, 0x00, 0x00, 0x00,
                      0x01, 0x00, 0x00, 0x00, 0x00, 0x00, 0x00, 0x00,
                      0x02, 0x00, 0x00, 0x00, 0x00, 0x00, 0x00]"

definition buf_v0 :: buffer where
  "buf_v0 = buffer_of [0x00, 0x02, 0x00, 0x00, 0x00, 0x00]"

definition buf_src :: buffer where
  "buf_src = buffer_of [0x00, 0x12, 0x04, 0x03, 0x02, 0x01,
                        0x88, 0x77, 0x66, 0x55, 0x44, 0x33, 0x22]"

definition buf_dst :: buffer where
  "buf_dst = buffer_of [0x00, 0x11, 0x04, 0x03, 0x02, 0x01,
                        0x88, 0x77, 0x66, 0x55, 0x44, 0x33, 0x22]"

definition buf_plain :: buffer where
  "buf_plain = buffer_of [0x00, 0x10, 0x04, 0x03, 0x02, 0x01]"

text \<open>A header with both node ids present.\<close>

definition hdr_both :: MessageHeader where
  "hdr_both = \<lparr>mMessageId = 0x01020304, mSourceNodeId = Some 0x1122334455667788,
                mDestinationNodeId = Some 0\<rparr>"

text \<open>\<open>buf_v0_tail\<close> agrees with \<open>buf_v0\<close> on the first two bytes only.\<close>

definition buf_v0_tail :: buffer where
  "buf_v0_tail = buffer_of [0x00, 0x02, 0xFF, 0xFF, 0xFF, 0xFF, 0xFF]"

text \<open>
  \<open>buf20_tail\<close> holds the 20 bytes of \<open>buf20\<close>, followed by two bytes that differ from
  the memory behind \<open>buf20\<close>.
\<close>

definition buf20_tail :: buffer where
  "buf20_tail = buffer_of [0x00, 0x13, 0x04, 0x03, 0x02, 0x01,
                           0x88, 0x77, 0x66, 0x55, 0x44, 0x33, 0x22, 0x11,
                           0xA8, 0xA7, 0xA6, 0xA5, 0xA4, 0xA3, 0xEE, 0xFF]"

text \<open>The headers of the two encoding scenarios.\<close>

definition hdr_plain :: MessageHeader where
  "hdr_plain = \<lparr>mMessageId = 0x01020304, mSourceNodeId = None, mDestinationNodeId = None\<rparr>"

definition hdr_src :: MessageHeader where
  "hdr_src = \<lparr>mMessageId = 0x01020304, mSourceNodeId = Some 0x1122334455667788,
               mDestinationNodeId = None\<rparr>"

section \<open>Little-endian reads and writes\<close>

lemma get_le_cong:
  "(\<And>i. p \<le> i \<Longrightarrow> i < p + n \<Longrightarrow> d i = d' i) \<Longrightarrow> get_le d p n = get_le d' p n"
  by (induction n arbitrary: p) auto

lemma put_le_other: "i < p \<or> p + n \<le> i \<Longrightarrow> put_le d p n v i = d i"
  by (induction n arbitrary: p d v) auto

lemma get_le_put_le_disj:
  "p + n \<le> q \<or> q + m \<le> p \<Longrightarrow> get_le (put_le d q m v) p n = get_le d p n"
  by (rule get_le_cong) (auto simp: put_le_other)

lemma get_put_le: "get_le (put_le d p n v) p n = v mod 256 ^ n"
proof (induction n arbitrary: p d v)
  case 0
  show ?case by simp
next
  case (Suc n)
  have a: "put_le (d(p := of_nat v)) (Suc p) n (v div 256) p = (of_nat v :: u8)"
    by (simp add: put_le_other)
  have b: "unat (of_nat v :: u8) = v mod 256"
    by (simp add: unat_of_nat)
  have c: "v mod (256 * 256 ^ n) = v mod 256 + 256 * (v div 256 mod 256 ^ n)"
    by (simp add: mod_mult2_eq)
  show ?case by (simp add: a b c Suc.IH del: fun_upd_apply)
qed

lemma get_put_le_word:
  assumes l: "LENGTH('a::len) = 8 * n"
  shows "(of_nat (get_le (put_le d p n (unat (w :: 'a word))) p n) :: 'a word) = w"
proof -
  have "(256::nat) ^ n = 2 ^ LENGTH('a)" by (simp add: l power_mult)
  then have "unat w mod 256 ^ n = unat w" by simp
  then show ?thesis by (simp add: get_put_le)
qed

lemma get16: "of_nat (get_le (put_le d p 2 (unat (w :: u16))) p 2) = w"
  by (rule get_put_le_word) simp

lemma get32: "of_nat (get_le (put_le d p 4 (unat (w :: u32))) p 4) = w"
  by (rule get_put_le_word) simp

lemma get64: "of_nat (get_le (put_le d p 8 (unat (w :: u64))) p 8) = w"
  by (rule get_put_le_word) simp

text \<open>Unrolling on numerals, for evaluation at concrete buffers.\<close>

lemma get_le_step: "0 < n \<Longrightarrow> get_le d p n = unat (d p) + 256 * get_le d (p + 1) (n - 1)"
  by (cases n) simp_all

lemma put_le_step:
  "0 < n \<Longrightarrow> put_le d p n v = put_le (d(p := of_nat v)) (p + 1) (n - 1) (v div 256)"
  by (cases n) simp_all

lemma upt_join: "i \<le> j \<Longrightarrow> j \<le> k \<Longrightarrow> [i..<j] @ [j..<k] = [i..<k]"
  by (metis le_Suc_ex upt_add_eq_append)

lemma upt_6: "[0..<6] = [0, 1, 2, 3, 4, 5]"
  by (simp add: upt_conv_Cons)

lemma upt_20:
  "[0..<20] = [0, 1, 2, 3, 4, 5, 6, 7, 8, 9, 10, 11, 12, 13, 14, 15, 16, 17, 18, 19]"
  by (simp add: upt_conv_Cons)

lemma get_le_same:
  "\<forall>i. i < sz \<longrightarrow> data' i = data i \<Longrightarrow> p + n \<le> sz \<Longrightarrow> get_le data' p n = get_le data p n"
  by (rule get_le_cong) simp

lemma upt_14: "[0..<14] = [0, 1, 2, 3, 4, 5, 6, 7, 8, 9, 10, 11, 12, 13]"
  by (simp add: upt_conv_Cons)

section \<open>The header word\<close>

lemma header_word_bytes: "header_word data = of_nat (unat (data 0) + 256 * unat (data 1))"
  by (simp add: header_word_def numeral_2_eq_2)

lemma version_of_cong: "data' 0 = data 0 \<Longrightarrow> data' 1 = data 1 \<Longrightarrow> version_of data' = version_of data"
  by (simp add: version_of_def header_word_bytes)

text \<open>The version of line 64 is the top four bits of the header word.\<close>

lemma drop12: "drop_bit 12 (w AND 0xF000) = drop_bit 12 (w :: u16)"
proof -
  have m: "drop_bit 12 (0xF000 :: u16) = mask 4"
    by (simp add: mask_eq_exp_minus_1)
  have "drop_bit 12 w AND mask 4 = drop_bit 12 w"
    by (rule bit_eqI) (auto simp: bit_simps dest: bit_imp_le_length)
  then show ?thesis by (simp only: drop_bit_and m)
qed

lemma version_of_top_bits: "version_of data = uint (header_word data) div 4096"
proof -
  have "version_of data = uint (drop_bit 12 (header_word data))"
    by (simp only: version_of_def kVersionShift_def kVersionMask_def drop12)
  also have "\<dots> = uint (header_word data) div 2 ^ 12"
    by (simp add: uint_div_distrib drop_bit_eq_div)
  finally show ?thesis by simp
qed

lemma version_cases:
  "0 \<le> V \<Longrightarrow> V < 16 \<Longrightarrow> V \<in> {0, 1, 2, 3, 4, 5, 6, 7, 8, 9, 10, 11, 12, 13, 14, 15 :: int}"
  by simp presburger

lemma Encode_header_version:
  assumes "0 \<le> V" "V < 16"
  shows "uint (drop_bit kVersionShift (Encode_header V h AND kVersionMask)) = V"
  using version_cases [OF assms]
  by (auto simp: Encode_header_def kVersionShift_def kVersionMask_def
      kFlagSourceNodeIdPresent_def kFlagDestinationNodeIdPresent_def)

lemma kFlagSource_exp: "kFlagSourceNodeIdPresent = 2 ^ 9"
  by (simp add: kFlagSourceNodeIdPresent_def)

lemma kFlagDestination_exp: "kFlagDestinationNodeIdPresent = 2 ^ 8"
  by (simp add: kFlagDestinationNodeIdPresent_def)

lemma source_flag_bit: "(x AND kFlagSourceNodeIdPresent \<noteq> 0) = bit x 9"
  by (simp add: kFlagSource_exp bit_iff_and_push_bit_not_eq_0 push_bit_eq_mult)

lemma destination_flag_bit: "(x AND kFlagDestinationNodeIdPresent \<noteq> 0) = bit x 8"
  by (simp add: kFlagDestination_exp bit_iff_and_push_bit_not_eq_0 push_bit_eq_mult)

lemma Encode_header_source:
  "(Encode_header V h AND kFlagSourceNodeIdPresent \<noteq> 0) = (mSourceNodeId h \<noteq> None)"
  unfolding source_flag_bit
  by (simp add: Encode_header_def Let_def kVersionShift_def kFlagSource_exp
      kFlagDestination_exp bit_or_iff bit_word_of_int_iff bit_push_bit_iff bit_exp_iff)

lemma Encode_header_destination:
  "(Encode_header V h AND kFlagDestinationNodeIdPresent \<noteq> 0) = (mDestinationNodeId h \<noteq> None)"
  unfolding destination_flag_bit
  by (simp add: Encode_header_def Let_def kVersionShift_def kFlagSource_exp
      kFlagDestination_exp bit_or_iff bit_word_of_int_iff bit_push_bit_iff bit_exp_iff)

section \<open>Decode, stage by stage\<close>

lemmas Decode_defs = Decode_def Decode_run_def Decode_source_def Decode_destination_def Let_def
  Read16_def Read32_def Read64_def kFixedHeaderSizeBytes_def kNodeIdSizeBytes_def
  version_of_def header_word_def

lemma Decode_run_short:
  "sz < 6 \<Longrightarrow> Decode_run V data sz h =
     \<lparr>d_err = CHIP_ERROR_INVALID_ARGUMENT, d_this = h,
      d_cursor = \<lparr>cur_p = 0, cur_reads = []\<rparr>, d_size = sz\<rparr>"
  by (simp add: Decode_run_def kFixedHeaderSizeBytes_def)

lemma Decode_run_mismatch:
  "6 \<le> sz \<Longrightarrow> version_of data \<noteq> V \<Longrightarrow>
   Decode_run V data sz h =
     \<lparr>d_err = CHIP_ERROR_VERSION_MISMATCH, d_this = h,
      d_cursor = \<lparr>cur_p = 2, cur_reads = [0, 1]\<rparr>, d_size = sz\<rparr>"
  unfolding Decode_run_def Let_def Read16_def Read32_def advance_def kFixedHeaderSizeBytes_def
    version_of_def header_word_def
  by (simp del: get_le.simps)

lemma Decode_run_fixed:
  "6 \<le> sz \<Longrightarrow> version_of data = V \<Longrightarrow>
   Decode_run V data sz h =
     Decode_source data (header_word data) (h\<lparr>mMessageId := of_nat (get_le data 2 4)\<rparr>)
       \<lparr>cur_p = 6, cur_reads = [0..<6]\<rparr> (sz - 6)"
  unfolding Decode_run_def Let_def Read16_def Read32_def advance_def kFixedHeaderSizeBytes_def
    version_of_def header_word_def
  by (simp del: get_le.simps add_2_eq_Suc add_2_eq_Suc' upt_rec_numeral add: upt_join)

lemma Decode_source_absent:
  "header AND kFlagSourceNodeIdPresent = 0 \<Longrightarrow>
   Decode_source data header h c sz =
     Decode_destination data header (h\<lparr>mSourceNodeId := None\<rparr>) c sz"
  by (simp add: Decode_source_def)

lemma Decode_source_short:
  "header AND kFlagSourceNodeIdPresent \<noteq> 0 \<Longrightarrow> sz < 8 \<Longrightarrow>
   Decode_source data header h c sz =
     \<lparr>d_err = CHIP_ERROR_INVALID_ARGUMENT, d_this = h, d_cursor = c, d_size = sz\<rparr>"
  by (simp add: Decode_source_def kNodeIdSizeBytes_def)

lemma Decode_source_present:
  "header AND kFlagSourceNodeIdPresent \<noteq> 0 \<Longrightarrow> 8 \<le> sz \<Longrightarrow>
   Decode_source data header h \<lparr>cur_p = p, cur_reads = [0..<p]\<rparr> sz =
     Decode_destination data header (h\<lparr>mSourceNodeId := Some (of_nat (get_le data p 8))\<rparr>)
       \<lparr>cur_p = p + 8, cur_reads = [0..<p + 8]\<rparr> (sz - 6)"
  by (simp add: Decode_source_def kNodeIdSizeBytes_def kFixedHeaderSizeBytes_def Read64_def
      advance_def upt_join del: get_le.simps)

lemma Decode_destination_absent:
  "header AND kFlagDestinationNodeIdPresent = 0 \<Longrightarrow>
   Decode_destination data header h c sz =
     \<lparr>d_err = CHIP_NO_ERROR, d_this = h\<lparr>mDestinationNodeId := None\<rparr>,
      d_cursor = c, d_size = sz\<rparr>"
  by (simp add: Decode_destination_def)

lemma Decode_destination_short:
  "header AND kFlagDestinationNodeIdPresent \<noteq> 0 \<Longrightarrow> sz < 8 \<Longrightarrow>
   Decode_destination data header h c sz =
     \<lparr>d_err = CHIP_ERROR_INVALID_ARGUMENT, d_this = h, d_cursor = c, d_size = sz\<rparr>"
  by (simp add: Decode_destination_def kNodeIdSizeBytes_def)

lemma Decode_destination_present:
  "header AND kFlagDestinationNodeIdPresent \<noteq> 0 \<Longrightarrow> 8 \<le> sz \<Longrightarrow>
   Decode_destination data header h \<lparr>cur_p = p, cur_reads = [0..<p]\<rparr> sz =
     \<lparr>d_err = CHIP_NO_ERROR,
      d_this = h\<lparr>mDestinationNodeId := Some (of_nat (get_le data p 8))\<rparr>,
      d_cursor = \<lparr>cur_p = p + 8, cur_reads = [0..<p + 8]\<rparr>, d_size = sz - 6\<rparr>"
  by (simp add: Decode_destination_def kNodeIdSizeBytes_def kFixedHeaderSizeBytes_def Read64_def
      advance_def upt_join del: get_le.simps)

text \<open>The assertion of line 69 holds whenever it is reached.\<close>

lemma assert_line_69:
  "cur_p (snd (Read32 data (snd (Read16 data \<lparr>cur_p = 0, cur_reads = []\<rparr>))))
     = kFixedHeaderSizeBytes"
  by (simp add: Read16_def Read32_def advance_def kFixedHeaderSizeBytes_def)

lemma Decode_run_source_short:
  assumes "version_of data = V" "header_word data AND kFlagSourceNodeIdPresent \<noteq> 0"
    "6 \<le> sz" "sz < 14"
  shows "Decode_run V data sz h =
     \<lparr>d_err = CHIP_ERROR_INVALID_ARGUMENT,
      d_this = h\<lparr>mMessageId := of_nat (get_le data 2 4)\<rparr>,
      d_cursor = \<lparr>cur_p = 6, cur_reads = [0..<6]\<rparr>, d_size = sz - 6\<rparr>"
proof -
  have c: "sz - 6 < 8" using assms(4) by simp
  show ?thesis
    using Decode_run_fixed [OF assms(3,1), of h] Decode_source_short [OF assms(2) c, of data]
    by (simp del: get_le.simps)
qed

lemma Decode_run_both_short:
  assumes "version_of data = V" "header_word data AND kFlagSourceNodeIdPresent \<noteq> 0"
    "header_word data AND kFlagDestinationNodeIdPresent \<noteq> 0" "14 \<le> sz" "sz < 20"
  shows "Decode_run V data sz h =
     \<lparr>d_err = CHIP_ERROR_INVALID_ARGUMENT,
      d_this = h\<lparr>mMessageId := of_nat (get_le data 2 4),
                mSourceNodeId := Some (of_nat (get_le data 6 8))\<rparr>,
      d_cursor = \<lparr>cur_p = 14, cur_reads = [0..<14]\<rparr>, d_size = sz - 12\<rparr>"
proof -
  have six: "6 \<le> sz" and c: "8 \<le> sz - 6" and c': "sz - 6 - 6 < 8"
    using assms(4,5) by simp_all
  show ?thesis
    using Decode_run_fixed [OF six assms(1), of h]
      Decode_source_present [OF assms(2) c, of data _ 6]
      Decode_destination_short [OF assms(3) c', of data]
    by (simp del: get_le.simps)
qed

lemma Decode_run_both:
  assumes "version_of data = V" "header_word data AND kFlagSourceNodeIdPresent \<noteq> 0"
    "header_word data AND kFlagDestinationNodeIdPresent \<noteq> 0" "20 \<le> sz"
  shows "Decode_run V data sz h =
     \<lparr>d_err = CHIP_NO_ERROR,
      d_this = h\<lparr>mMessageId := of_nat (get_le data 2 4),
                mSourceNodeId := Some (of_nat (get_le data 6 8)),
                mDestinationNodeId := Some (of_nat (get_le data 14 8))\<rparr>,
      d_cursor = \<lparr>cur_p = 22, cur_reads = [0..<22]\<rparr>, d_size = sz - 18\<rparr>"
proof -
  have six: "6 \<le> sz" and c: "8 \<le> sz - 6" and c': "8 \<le> sz - 6 - 6"
    using assms(4) by simp_all
  show ?thesis
    using Decode_run_fixed [OF six assms(1), of h]
      Decode_source_present [OF assms(2) c, of data _ 6]
      Decode_destination_present [OF assms(3) c', of data _ 14]
    by (simp del: get_le.simps)
qed

lemma Decode_of_layout:
  assumes hw: "header_word D = hw"
    and ver: "version_of D = V"
    and mid: "of_nat (get_le D 2 4) = m"
    and sf: "(hw AND kFlagSourceNodeIdPresent \<noteq> 0) = (s \<noteq> None)"
    and df: "(hw AND kFlagDestinationNodeIdPresent \<noteq> 0) = (d \<noteq> None)"
    and sv: "\<And>x. s = Some x \<Longrightarrow> of_nat (get_le D 6 8) = x"
    and dv: "\<And>x. d = Some x \<Longrightarrow> of_nat (get_le D (if s = None then 6 else 14) 8) = x"
    and sz: "6 + (if s = None then 0 else 8) + (if d = None then 0 else 8) \<le> sz"
  shows "Decode V D sz h0 =
    (CHIP_NO_ERROR, \<lparr>mMessageId = m, mSourceNodeId = s, mDestinationNodeId = d\<rparr>)"
proof -
  have six: "6 \<le> sz" using sz by simp
  note fixed = Decode_run_fixed [OF six ver, of h0, unfolded hw mid]
  show ?thesis
  proof (cases s)
    case None
    then have a: "hw AND kFlagSourceNodeIdPresent = 0" using sf by simp
    show ?thesis
    proof (cases d)
      case dn: None
      then have b: "hw AND kFlagDestinationNodeIdPresent = 0" using df by simp
      show ?thesis
        by (simp add: Decode_def fixed Decode_source_absent [OF a]
            Decode_destination_absent [OF b] None dn)
    next
      case (Some y)
      then have b: "hw AND kFlagDestinationNodeIdPresent \<noteq> 0" using df by simp
      have c: "8 \<le> sz - 6" using sz None Some by simp
      have v: "of_nat (get_le D 6 8) = y" using dv [OF Some] None by simp
      show ?thesis
        by (simp add: Decode_def fixed Decode_source_absent [OF a]
            Decode_destination_present [OF b c] None Some v del: get_le.simps)
    qed
  next
    case (Some x)
    then have a: "hw AND kFlagSourceNodeIdPresent \<noteq> 0" using sf by simp
    have c: "8 \<le> sz - 6" using sz Some by simp
    have vs: "of_nat (get_le D 6 8) = x" using sv [OF Some] .
    note src = Decode_source_present [OF a c, of D _ 6, unfolded vs]
    show ?thesis
    proof (cases d)
      case None
      then have b: "hw AND kFlagDestinationNodeIdPresent = 0" using df by simp
      show ?thesis
        by (simp add: Decode_def fixed src Decode_destination_absent [OF b] None Some
            del: get_le.simps)
    next
      case sd: (Some y)
      then have b: "hw AND kFlagDestinationNodeIdPresent \<noteq> 0" using df by simp
      have c': "8 \<le> sz - 6 - 6" using sz Some sd by simp
      have v: "of_nat (get_le D 14 8) = y" using dv [OF sd] Some by simp
      note dst = Decode_destination_present [OF b c', of D _ 14, unfolded v]
      show ?thesis using dst
        by (simp add: Decode_def fixed src Some sd del: get_le.simps)
    qed
  qed
qed

section \<open>The concrete buffers\<close>

lemma buffer_of_Nil: "buffer_of [] i = 0"
  by (simp add: buffer_of_def)

lemma buffer_of_Cons_0: "buffer_of (x # xs) 0 = x"
  by (simp add: buffer_of_def)

lemma buffer_of_Cons_Suc: "buffer_of (x # xs) (Suc i) = buffer_of xs i"
  by (simp add: buffer_of_def)

lemmas buffer_of_simps = buffer_of_Nil buffer_of_Cons_0 buffer_of_Cons_Suc

lemma buf20_header: "header_word buf20 = 0x1300"
  by (simp add: header_word_bytes buf20_def buffer_of_simps)

lemma buf21_header: "header_word buf21 = 0x1300"
  by (simp add: header_word_bytes buf21_def buffer_of_simps)

lemma buf_v0_header: "header_word buf_v0 = 0x0200"
  by (simp add: header_word_bytes buf_v0_def buffer_of_simps)

lemma buf_src_header: "header_word buf_src = 0x1200"
  by (simp add: header_word_bytes buf_src_def buffer_of_simps)

lemma buf_dst_header: "header_word buf_dst = 0x1100"
  by (simp add: header_word_bytes buf_dst_def buffer_of_simps)

lemma buf_plain_header: "header_word buf_plain = 0x1000"
  by (simp add: header_word_bytes buf_plain_def buffer_of_simps)

lemmas buf_headers = buf20_header buf21_header buf_v0_header buf_src_header buf_dst_header
  buf_plain_header

lemmas flag_defs = kFlagSourceNodeIdPresent_def kFlagDestinationNodeIdPresent_def

lemma buf_versions:
  "version_of buf20 = 1" "version_of buf21 = 1" "version_of buf_v0 = 0"
  "version_of buf_src = 1" "version_of buf_dst = 1" "version_of buf_plain = 1"
  by (simp_all add: version_of_def buf_headers kVersionShift_def kVersionMask_def)

lemma buf_flags:
  "header_word buf20 AND kFlagSourceNodeIdPresent \<noteq> 0"
  "header_word buf20 AND kFlagDestinationNodeIdPresent \<noteq> 0"
  "header_word buf21 AND kFlagSourceNodeIdPresent \<noteq> 0"
  "header_word buf21 AND kFlagDestinationNodeIdPresent \<noteq> 0"
  by (simp_all add: buf_headers flag_defs)

lemma buf20_tail_header: "header_word buf20_tail = 0x1300"
  by (simp add: header_word_bytes buf20_tail_def buffer_of_simps)

lemma buf20_tail_version: "version_of buf20_tail = 1"
  by (simp add: version_of_def buf20_tail_header kVersionShift_def kVersionMask_def)

lemma buf20_tail_flags:
  "header_word buf20_tail AND kFlagSourceNodeIdPresent \<noteq> 0"
  "header_word buf20_tail AND kFlagDestinationNodeIdPresent \<noteq> 0"
  by (simp_all add: buf20_tail_header flag_defs)

lemma buf20_same_bytes: "bytes buf20_tail 20 = bytes buf20 20"
  by (simp add: bytes_def upt_20 buf20_def buf20_tail_def buffer_of_def)

lemma buf20_decoded:
  "Decode 1 buf20 20 empty_header =
     (CHIP_NO_ERROR, \<lparr>mMessageId = 0x01020304, mSourceNodeId = Some 0x1122334455667788,
        mDestinationNodeId = Some 0x0000A3A4A5A6A7A8\<rparr>)"
proof -
  have "Decode 1 buf20 20 empty_header =
     (CHIP_NO_ERROR, \<lparr>mMessageId = of_nat (get_le buf20 2 4),
        mSourceNodeId = Some (of_nat (get_le buf20 6 8)),
        mDestinationNodeId = Some (of_nat (get_le buf20 14 8))\<rparr>)"
    by (simp add: Decode_def Decode_run_both [OF buf_versions(1) buf_flags(1,2)]
        empty_header_def del: get_le.simps)
  then show ?thesis
    by (simp add: get_le_step buf20_def buffer_of_def)
qed

lemma buf20_tail_decoded:
  "Decode 1 buf20_tail 20 empty_header =
     (CHIP_NO_ERROR, \<lparr>mMessageId = 0x01020304, mSourceNodeId = Some 0x1122334455667788,
        mDestinationNodeId = Some 0xFFEEA3A4A5A6A7A8\<rparr>)"
proof -
  have "Decode 1 buf20_tail 20 empty_header =
     (CHIP_NO_ERROR, \<lparr>mMessageId = of_nat (get_le buf20_tail 2 4),
        mSourceNodeId = Some (of_nat (get_le buf20_tail 6 8)),
        mDestinationNodeId = Some (of_nat (get_le buf20_tail 14 8))\<rparr>)"
    by (simp add: Decode_def Decode_run_both [OF buf20_tail_version buf20_tail_flags]
        empty_header_def del: get_le.simps)
  then show ?thesis
    by (simp add: get_le_step buf20_tail_def buffer_of_def)
qed

lemmas Write_defs = Write16_def Write32_def Write64_def
lemmas size_defs = EncodeSizeBytes_def kFixedHeaderSizeBytes_def kNodeIdSizeBytes_def

section \<open>Decode: truncated input\<close>

text \<open>
  C1, as amended. A buffer shorter than 6 bytes is rejected with
  \<open>CHIP_ERROR_INVALID_ARGUMENT\<close>. A buffer whose version nibble is the supported version
  is rejected with \<open>CHIP_ERROR_INVALID_ARGUMENT\<close> when a presence flag is set and the
  stated length is below 14, and when both flags are set and the stated length is below
  20. Nothing is said about a version nibble other than the supported one (the version
  check comes first), nor about lengths 20 and 21 with both flags set.
\<close>

theorem Decode_truncation:
  "sz < 6 \<or> (version_of data = V \<and>
     ((header_word data AND kFlagSourceNodeIdPresent \<noteq> 0 \<and> sz < 14) \<or>
      (header_word data AND kFlagDestinationNodeIdPresent \<noteq> 0 \<and> sz < 14) \<or>
      (header_word data AND kFlagSourceNodeIdPresent \<noteq> 0 \<and>
       header_word data AND kFlagDestinationNodeIdPresent \<noteq> 0 \<and> sz < 20)))
   \<Longrightarrow> fst (Decode V data sz h) = CHIP_ERROR_INVALID_ARGUMENT"
  unfolding Decode_defs
  by (auto split: if_splits simp del: get_le.simps)

text \<open>The amended C1 at a concrete input for each part of its hypothesis.\<close>

theorem Decode_truncation_witness:
  "fst (Decode 1 buf_plain 5 empty_header) = CHIP_ERROR_INVALID_ARGUMENT
   \<and> fst (Decode 1 buf_src 13 empty_header) = CHIP_ERROR_INVALID_ARGUMENT
   \<and> fst (Decode 1 buf_dst 13 empty_header) = CHIP_ERROR_INVALID_ARGUMENT
   \<and> fst (Decode 1 buf20 19 empty_header) = CHIP_ERROR_INVALID_ARGUMENT"
  using Decode_truncation [of 5 buf_plain 1 empty_header]
    Decode_truncation [of 13 buf_src 1 empty_header]
    Decode_truncation [of 13 buf_dst 1 empty_header]
    Decode_truncation [of 19 buf20 1 empty_header]
  by (simp add: buf_versions buf_headers flag_defs)

text \<open>
  C1 as stated fails: \<open>buf_v0\<close> has 6 bytes, its header word has the source flag set and
  no byte is left for the source node id, yet the result is
  \<open>CHIP_ERROR_VERSION_MISMATCH\<close>, since the version nibble is 0 and the supported version
  is 1.
\<close>

theorem Decode_truncation_counterexample:
  "header_word buf_v0 AND kFlagSourceNodeIdPresent \<noteq> 0
   \<and> 6 - kFixedHeaderSizeBytes < kNodeIdSizeBytes
   \<and> Decode 1 buf_v0 6 empty_header = (CHIP_ERROR_VERSION_MISMATCH, empty_header)
   \<and> fst (Decode 1 buf_v0 6 empty_header) \<noteq> CHIP_ERROR_INVALID_ARGUMENT"
  by (simp add: Decode_def Decode_run_mismatch buf_versions buf_headers flag_defs
      kFixedHeaderSizeBytes_def kNodeIdSizeBytes_def)

section \<open>Decode: the offsets read\<close>

text \<open>
  C2 at a failing input. With a stated length of 20, version 1 and both presence flags,
  Decode returns \<open>CHIP_NO_ERROR\<close> after dereferencing the offsets 0 to 21: offsets 20
  and 21 are not below the stated length.
\<close>

theorem Decode_reads_past_stated_length:
  "d_err (Decode_run 1 buf20 20 empty_header) = CHIP_NO_ERROR
   \<and> cur_reads (d_cursor (Decode_run 1 buf20 20 empty_header)) = [0..<22]
   \<and> 20 \<in> set (cur_reads (d_cursor (Decode_run 1 buf20 20 empty_header)))
   \<and> 21 \<in> set (cur_reads (d_cursor (Decode_run 1 buf20 20 empty_header)))"
  by (simp add: Decode_run_both [OF buf_versions(1) buf_flags(1,2)] del: get_le.simps)

text \<open>
  Apart from the inputs of C2 and C4 (valid version, both flags, stated length 20 or
  21), every offset Decode dereferences is below the stated length.
\<close>

lemma Decode_reads_in_bounds_otherwise:
  assumes "\<not> (version_of data = V \<and> header_word data AND kFlagSourceNodeIdPresent \<noteq> 0
             \<and> header_word data AND kFlagDestinationNodeIdPresent \<noteq> 0 \<and> 20 \<le> sz \<and> sz < 22)"
  shows "\<forall>i \<in> set (cur_reads (d_cursor (Decode_run V data sz h))). i < sz"
  using assms unfolding Decode_defs advance_def
  by (auto split: if_splits simp del: get_le.simps)

section \<open>Round trip\<close>

text \<open>
  C3. For a supported version that fits the four version bits, every message id and
  every combination of present and absent node ids: Encode into a buffer of sufficient
  capacity succeeds, reports the encoded size, and Decode of the written bytes succeeds
  and yields the encoded header, whatever the object held before.
\<close>

theorem Encode_Decode_roundtrip:
  assumes V: "0 \<le> V" "V < 16" and sz: "EncodeSizeBytes h \<le> sz"
  shows "case Encode V h data sz es of (e, data', n) \<Rightarrow>
           e = CHIP_NO_ERROR \<and> n = EncodeSizeBytes h
           \<and> Decode V data' n prior = (CHIP_NO_ERROR, h)"
proof -
  obtain m s d where h: "h = \<lparr>mMessageId = m, mSourceNodeId = s, mDestinationNodeId = d\<rparr>"
    by (cases h) simp
  define hw where "hw = Encode_header V h"
  define D1 where "D1 = put_le (put_le data 0 2 (unat hw)) 2 4 (unat m)"
  define D where "D =
    (case s of
       None \<Rightarrow> (case d of None \<Rightarrow> D1 | Some y \<Rightarrow> put_le D1 6 8 (unat y))
     | Some x \<Rightarrow> (case d of None \<Rightarrow> put_le D1 6 8 (unat x)
         | Some y \<Rightarrow> put_le (put_le D1 6 8 (unat x)) 14 8 (unat y)))"
  have enc: "Encode V h data sz es = (CHIP_NO_ERROR, D, EncodeSizeBytes h)"
    using sz
    by (simp add: Encode_def Let_def Write_defs size_defs h D_def D1_def hw_def
        split: option.splits del: put_le.simps add_2_eq_Suc add_2_eq_Suc')
  have n: "6 + (if s = None then 0 else 8) + (if d = None then 0 else 8) \<le> EncodeSizeBytes h"
    by (simp add: size_defs h)
  have hwD: "header_word D = hw"
    by (simp add: header_word_def D_def D1_def get_le_put_le_disj get16 split: option.splits
        del: put_le.simps get_le.simps)
  have mD: "of_nat (get_le D 2 4) = m"
    by (simp add: D_def D1_def get_le_put_le_disj get32 split: option.splits
        del: put_le.simps get_le.simps)
  have sD: "of_nat (get_le D 6 8) = x" if "s = Some x" for x
    using that
    by (simp add: D_def D1_def get_le_put_le_disj get64 split: option.splits
        del: put_le.simps get_le.simps)
  have dD: "of_nat (get_le D (if s = None then 6 else 14) 8) = y" if "d = Some y" for y
    using that
    by (simp add: D_def D1_def get_le_put_le_disj get64 split: option.splits
        del: put_le.simps get_le.simps)
  have ver: "version_of D = V"
    unfolding version_of_def hwD hw_def by (rule Encode_header_version [OF V])
  have sf: "(hw AND kFlagSourceNodeIdPresent \<noteq> 0) = (s \<noteq> None)"
    unfolding hw_def by (simp only: Encode_header_source) (simp add: h)
  have df: "(hw AND kFlagDestinationNodeIdPresent \<noteq> 0) = (d \<noteq> None)"
    unfolding hw_def by (simp only: Encode_header_destination) (simp add: h)
  have "Decode V D (EncodeSizeBytes h) prior = (CHIP_NO_ERROR, h)"
    using Decode_of_layout [OF hwD ver mD sf df sD dD n, of prior] by (simp add: h)
  then show ?thesis by (simp add: enc)
qed

text \<open>C3 at version 1 with both node ids present.\<close>

theorem Encode_Decode_roundtrip_witness:
  "(0::int) \<le> 1 \<and> (1::int) < 16 \<and> EncodeSizeBytes hdr_both \<le> 22
   \<and> (case Encode 1 hdr_both (buffer_of []) 22 0 of (e, data', n) \<Rightarrow>
         e = CHIP_NO_ERROR \<and> n = 22 \<and> Decode 1 data' n empty_header = (CHIP_NO_ERROR, hdr_both))"
  using Encode_Decode_roundtrip [where V = 1 and h = hdr_both and sz = 22
      and data = "buffer_of []" and es = 0 and prior = empty_header]
  by (simp add: size_defs hdr_both_def)

section \<open>Decode: the size counter and the destination node id\<close>

text \<open>
  C4. With a valid version and both presence flags set, the remaining-size counter is
  decremented by 6 after the source node id, while the read position advances by 8: at
  the destination check the counter is the stated length minus 12 and the position is
  14. Decode therefore succeeds exactly when the stated length is at least 20, and then
  it has read the offsets 0 to 21, the destination node id from offsets 14 to 21.
\<close>

theorem Decode_both_flags_bound:
  assumes "version_of data = V"
    and "header_word data AND kFlagSourceNodeIdPresent \<noteq> 0"
    and "header_word data AND kFlagDestinationNodeIdPresent \<noteq> 0"
  shows "d_err (Decode_run V data sz h) =
           (if 20 \<le> sz then CHIP_NO_ERROR else CHIP_ERROR_INVALID_ARGUMENT)
    \<and> (14 \<le> sz \<and> sz < 20 \<longrightarrow>
         cur_p (d_cursor (Decode_run V data sz h)) = 14
         \<and> d_size (Decode_run V data sz h) = sz - 6 - 6)
    \<and> (20 \<le> sz \<longrightarrow>
         cur_reads (d_cursor (Decode_run V data sz h)) = [0..<22]
         \<and> mDestinationNodeId (d_this (Decode_run V data sz h)) = Some (of_nat (get_le data 14 8))
         \<and> d_size (Decode_run V data sz h) = sz - 6 - 6 - 6)"
proof -
  show ?thesis
  proof (cases "20 \<le> sz")
    case True
    then show ?thesis
      by (simp add: Decode_run_both [OF assms True] del: get_le.simps)
  next
    case False
    then have lt: "sz < 20" by simp
    show ?thesis
    proof (cases "14 \<le> sz")
      case True
      then show ?thesis using False
        by (simp add: Decode_run_both_short [OF assms True lt] del: get_le.simps)
    next
      case False
      then show ?thesis
        by (cases "6 \<le> sz")
          (simp_all add: Decode_run_source_short [OF assms(1,2)] Decode_run_short)
    qed
  qed
qed

text \<open>C4 at a stated length of 21 and at a stated length of 19.\<close>

theorem Decode_both_flags_bound_witness:
  "version_of buf21 = 1
   \<and> header_word buf21 AND kFlagSourceNodeIdPresent \<noteq> 0
   \<and> header_word buf21 AND kFlagDestinationNodeIdPresent \<noteq> 0
   \<and> d_err (Decode_run 1 buf21 21 empty_header) = CHIP_NO_ERROR
   \<and> cur_reads (d_cursor (Decode_run 1 buf21 21 empty_header)) = [0..<22]
   \<and> d_size (Decode_run 1 buf21 21 empty_header) = 3
   \<and> d_err (Decode_run 1 buf21 19 empty_header) = CHIP_ERROR_INVALID_ARGUMENT
   \<and> cur_p (d_cursor (Decode_run 1 buf21 19 empty_header)) = 14
   \<and> d_size (Decode_run 1 buf21 19 empty_header) = 7"
  using Decode_both_flags_bound [OF buf_versions(2) buf_flags(3,4), of 21 empty_header]
    Decode_both_flags_bound [OF buf_versions(2) buf_flags(3,4), of 19 empty_header]
  by (simp add: buf_versions buf_flags)

section \<open>Decode: the version gate\<close>

text \<open>
  C5. When the stated length is at least 6 and the top four bits of the little-endian
  word at offset 0 (mask \<open>0xF000\<close>, shift 12) differ from the supported version, Decode
  returns \<open>CHIP_ERROR_VERSION_MISMATCH\<close>. This holds for every buffer with the same
  first two bytes, whatever the remaining bytes are; only offsets 0 and 1 are read, the
  read position stops at 2 and the object is unchanged.
\<close>

theorem Decode_version_gate:
  assumes "6 \<le> sz" and "version_of data \<noteq> V" and "data' 0 = data 0" and "data' 1 = data 1"
  shows "Decode_run V data' sz h =
     \<lparr>d_err = CHIP_ERROR_VERSION_MISMATCH, d_this = h,
      d_cursor = \<lparr>cur_p = 2, cur_reads = [0, 1]\<rparr>, d_size = sz\<rparr>"
proof -
  have "version_of data' \<noteq> V"
    using assms(2-4) by (simp add: version_of_def header_word_bytes)
  with assms(1) show ?thesis
    unfolding Decode_run_def Let_def Read16_def Read32_def advance_def kFixedHeaderSizeBytes_def
      version_of_def header_word_def
    by (simp del: get_le.simps)
qed

text \<open>C5 at two buffers of version 0 that differ from offset 2 on, with supported version 1.\<close>

theorem Decode_version_gate_witness:
  "version_of buf_v0 \<noteq> 1 \<and> buf_v0_tail 0 = buf_v0 0 \<and> buf_v0_tail 1 = buf_v0 1
   \<and> buf_v0_tail 2 \<noteq> buf_v0 2
   \<and> Decode_run 1 buf_v0_tail 6 hdr_both =
     \<lparr>d_err = CHIP_ERROR_VERSION_MISMATCH, d_this = hdr_both,
      d_cursor = \<lparr>cur_p = 2, cur_reads = [0, 1]\<rparr>, d_size = 6\<rparr>"
proof -
  have v: "version_of buf_v0 \<noteq> 1"
    by (simp add: buf_versions)
  have b0: "buf_v0_tail 0 = buf_v0 0" and b1: "buf_v0_tail 1 = buf_v0 1"
    and b2: "buf_v0_tail 2 \<noteq> buf_v0 2"
    by (simp_all add: buf_v0_def buf_v0_tail_def buffer_of_def)
  have six: "(6::nat) \<le> 6" by simp
  from v b0 b1 b2 Decode_version_gate [OF six v b0 b1, of hdr_both] show ?thesis
    by simp
qed

section \<open>Encode: capacity\<close>

text \<open>
  C6. When the capacity is below the encoded size, Encode returns
  \<open>CHIP_ERROR_INVALID_ARGUMENT\<close>, the memory behind \<^verbatim>\<open>data\<close> is unchanged and so is
  \<^verbatim>\<open>*encode_size\<close>.
\<close>

theorem Encode_too_small:
  "sz < EncodeSizeBytes h \<Longrightarrow> Encode V h data sz es = (CHIP_ERROR_INVALID_ARGUMENT, data, es)"
  by (simp add: Encode_def)

text \<open>C6 at a capacity of 21 for a header that needs 22 bytes.\<close>

theorem Encode_too_small_witness:
  "21 < EncodeSizeBytes hdr_both
   \<and> Encode 1 hdr_both buf_plain 21 0 = (CHIP_ERROR_INVALID_ARGUMENT, buf_plain, 0)"
  using Encode_too_small [of 21 hdr_both 1 buf_plain 0]
  by (simp add: size_defs hdr_both_def)

text \<open>Whatever the capacity, Encode leaves every byte at or behind the encoded size as it was.\<close>

lemma Encode_frame:
  "EncodeSizeBytes h \<le> i \<Longrightarrow> fst (snd (Encode V h data sz es)) i = data i"
  by (cases "mSourceNodeId h"; cases "mDestinationNodeId h")
    (simp_all add: Encode_def Let_def Write_defs size_defs put_le_other
      del: put_le.simps add_2_eq_Suc add_2_eq_Suc')

section \<open>EncodeSizeBytes\<close>

text \<open>
  C7. The encoded size is 6 plus 8 for each node id that is present: 6 with neither, 14
  with exactly one, 22 with both. The function is total and has no failure value.
\<close>

theorem EncodeSizeBytes_value:
  "EncodeSizeBytes h =
     6 + (if mSourceNodeId h = None then 0 else 8)
       + (if mDestinationNodeId h = None then 0 else 8)
   \<and> EncodeSizeBytes \<lparr>mMessageId = m, mSourceNodeId = None, mDestinationNodeId = None\<rparr> = 6
   \<and> EncodeSizeBytes \<lparr>mMessageId = m, mSourceNodeId = Some s, mDestinationNodeId = None\<rparr> = 14
   \<and> EncodeSizeBytes \<lparr>mMessageId = m, mSourceNodeId = None, mDestinationNodeId = Some d\<rparr> = 14
   \<and> EncodeSizeBytes \<lparr>mMessageId = m, mSourceNodeId = Some s, mDestinationNodeId = Some d\<rparr> = 22"
  by (simp add: EncodeSizeBytes_def kFixedHeaderSizeBytes_def kNodeIdSizeBytes_def)

section \<open>Encode: the two concrete scenarios\<close>

text \<open>
  C8. With supported version 1, encoding message id \<open>0x01020304\<close> without node ids
  succeeds with the 6 bytes \<open>00 10 04 03 02 01\<close>; with source node id
  \<open>0x1122334455667788\<close> and no destination it succeeds with the 14 bytes
  \<open>00 12 04 03 02 01 88 77 66 55 44 33 22 11\<close>. The capacity is any number not below
  the encoded size, and the bytes behind the encoded header are unchanged.
\<close>

theorem Encode_scenarios:
  "Encode 1 hdr_plain data (6 + k) es =
     (CHIP_NO_ERROR, fst (snd (Encode 1 hdr_plain data (6 + k) es)), 6)
   \<and> bytes (fst (snd (Encode 1 hdr_plain data (6 + k) es))) 6
       = [0x00, 0x10, 0x04, 0x03, 0x02, 0x01]
   \<and> Encode 1 hdr_src data (14 + k) es =
     (CHIP_NO_ERROR, fst (snd (Encode 1 hdr_src data (14 + k) es)), 14)
   \<and> bytes (fst (snd (Encode 1 hdr_src data (14 + k) es))) 14
       = [0x00, 0x12, 0x04, 0x03, 0x02, 0x01, 0x88, 0x77, 0x66, 0x55, 0x44, 0x33, 0x22, 0x11]
   \<and> fst (snd (Encode 1 hdr_plain data (6 + k) es)) (6 + i) = data (6 + i)
   \<and> fst (snd (Encode 1 hdr_src data (14 + k) es)) (14 + i) = data (14 + i)"
  by (simp add: Encode_def Encode_header_def Let_def Write_defs size_defs hdr_plain_def
      hdr_src_def bytes_def upt_6 upt_14 put_le_step flag_defs kVersionShift_def
      del: put_le.simps(2) add_2_eq_Suc add_2_eq_Suc')

section \<open>Decode: the object on early failure\<close>

text \<open>
  C9. When Decode fails because the stated length is below 6, or fails with
  \<open>CHIP_ERROR_VERSION_MISMATCH\<close>, the object is unchanged: message id, source node id
  and destination node id keep their prior values.
\<close>

theorem Decode_early_failure_keeps_object:
  "sz < 6 \<or> fst (Decode V data sz h) = CHIP_ERROR_VERSION_MISMATCH \<Longrightarrow>
   snd (Decode V data sz h) = h"
  unfolding Decode_defs
  by (auto split: if_splits simp del: get_le.simps)

text \<open>C9 at a stated length of 5 and at a buffer of version 0.\<close>

theorem Decode_early_failure_keeps_object_witness:
  "snd (Decode 1 buf_src 5 hdr_both) = hdr_both
   \<and> fst (Decode 1 buf_v0 6 hdr_both) = CHIP_ERROR_VERSION_MISMATCH
   \<and> snd (Decode 1 buf_v0 6 hdr_both) = hdr_both"
  using Decode_early_failure_keeps_object [of 5 1 buf_src hdr_both]
    Decode_early_failure_keeps_object [of 6 1 buf_v0 hdr_both]
  by (simp add: Decode_def Decode_run_mismatch buf_versions)

section \<open>Decode: what the result depends on\<close>

text \<open>
  The returned code is decided by the stated length, the version nibble and the two
  presence flags.
\<close>

lemma Decode_err_cases:
  "fst (Decode V data sz h) =
    (if sz < 6 then CHIP_ERROR_INVALID_ARGUMENT
     else if version_of data \<noteq> V then CHIP_ERROR_VERSION_MISMATCH
     else if header_word data AND kFlagSourceNodeIdPresent \<noteq> 0 \<and> sz < 14
       then CHIP_ERROR_INVALID_ARGUMENT
     else if header_word data AND kFlagDestinationNodeIdPresent \<noteq> 0
        \<and> sz < (if header_word data AND kFlagSourceNodeIdPresent \<noteq> 0 then 20 else 14)
       then CHIP_ERROR_INVALID_ARGUMENT
     else CHIP_NO_ERROR)"
  unfolding Decode_defs
  by (auto split: if_splits simp del: get_le.simps)

text \<open>
  On success every member is assigned: the message id from offsets 2 to 5, each node id
  from its 8 bytes when its flag is set and cleared otherwise. Nothing of the prior
  object is left.
\<close>

lemma Decode_success_value:
  assumes "fst (Decode V data sz h) = CHIP_NO_ERROR"
  shows "snd (Decode V data sz h) =
    \<lparr>mMessageId = of_nat (get_le data 2 4),
     mSourceNodeId = (if header_word data AND kFlagSourceNodeIdPresent \<noteq> 0
                      then Some (of_nat (get_le data 6 8)) else None),
     mDestinationNodeId = (if header_word data AND kFlagDestinationNodeIdPresent \<noteq> 0
        then Some (of_nat (get_le data
               (if header_word data AND kFlagSourceNodeIdPresent \<noteq> 0 then 14 else 6) 8))
        else None)\<rparr>"
  using assms unfolding Decode_defs advance_def
  by (auto split: if_splits simp del: get_le.simps add_2_eq_Suc add_2_eq_Suc')

text \<open>On the same memory, a successful result is the same from any prior object.\<close>

lemma Decode_success_independent:
  "fst (Decode V data sz h1) = CHIP_NO_ERROR \<Longrightarrow> Decode V data sz h2 = Decode V data sz h1"
  unfolding Decode_defs
  by (auto split: if_splits simp del: get_le.simps)

text \<open>
  Unless both presence flags are set and the stated length is below 22, a successful
  result is decided by the bytes below the stated length: two memories that agree there
  give the same result, from any two prior objects.
\<close>

lemma Decode_function_of_buffer_bytes:
  assumes same: "\<forall>i. i < sz \<longrightarrow> data' i = data i"
    and ok: "fst (Decode V data sz h1) = CHIP_NO_ERROR"
    and carve: "\<not> (header_word data AND kFlagSourceNodeIdPresent \<noteq> 0
                  \<and> header_word data AND kFlagDestinationNodeIdPresent \<noteq> 0 \<and> sz < 22)"
  shows "Decode V data' sz h2 = Decode V data sz h1"
proof -
  have facts: "6 \<le> sz" "version_of data = V"
    "header_word data AND kFlagSourceNodeIdPresent \<noteq> 0 \<Longrightarrow> 14 \<le> sz"
    "header_word data AND kFlagDestinationNodeIdPresent \<noteq> 0 \<Longrightarrow> 14 \<le> sz"
    using ok unfolding Decode_err_cases [of V data sz h1]
    by (auto split: if_splits)
  note six = facts(1)
  have hw: "header_word data' = header_word data"
    using six by (simp add: header_word_def get_le_same [OF same] del: get_le.simps)
  have ver: "version_of data' = version_of data"
    by (simp add: version_of_def hw)
  have err: "fst (Decode V data' sz h2) = CHIP_NO_ERROR"
    unfolding Decode_err_cases [of V data' sz h2] hw ver
    using facts carve by auto
  have m: "get_le data' 2 4 = get_le data 2 4"
    using six by (simp add: get_le_same [OF same] del: get_le.simps)
  have s: "get_le data' 6 8 = get_le data 6 8"
    if "header_word data AND kFlagSourceNodeIdPresent \<noteq> 0
        \<or> header_word data AND kFlagDestinationNodeIdPresent \<noteq> 0"
  proof -
    have "14 \<le> sz" using that facts(3,4) by auto
    then show ?thesis by (simp add: get_le_same [OF same] del: get_le.simps)
  qed
  have d: "get_le data' 14 8 = get_le data 14 8"
    if "header_word data AND kFlagSourceNodeIdPresent \<noteq> 0"
      "header_word data AND kFlagDestinationNodeIdPresent \<noteq> 0"
  proof -
    have "22 \<le> sz" using that carve by simp
    then show ?thesis by (simp add: get_le_same [OF same] del: get_le.simps)
  qed
  have "snd (Decode V data' sz h2) = snd (Decode V data sz h1)"
    unfolding Decode_success_value [OF err] Decode_success_value [OF ok] hw m
    using s d by (auto simp del: get_le.simps)
  with err ok show ?thesis by (simp add: prod_eq_iff)
qed

text \<open>
  C10 at a failing input. \<open>buf20\<close> and \<open>buf20_tail\<close> hold the same 20 bytes, carry
  version 1 and both presence flags, and Decode succeeds on both with a stated length of
  20 from the same prior object. The destination node ids differ: their two high bytes
  come from offsets 20 and 21, behind the buffer. The result is not a function of the
  buffer bytes alone.
\<close>

theorem Decode_result_depends_on_bytes_past_length:
  "bytes buf20_tail 20 = bytes buf20 20
   \<and> Decode 1 buf20 20 empty_header =
       (CHIP_NO_ERROR, \<lparr>mMessageId = 0x01020304, mSourceNodeId = Some 0x1122334455667788,
          mDestinationNodeId = Some 0x0000A3A4A5A6A7A8\<rparr>)
   \<and> Decode 1 buf20_tail 20 empty_header =
       (CHIP_NO_ERROR, \<lparr>mMessageId = 0x01020304, mSourceNodeId = Some 0x1122334455667788,
          mDestinationNodeId = Some 0xFFEEA3A4A5A6A7A8\<rparr>)
   \<and> Decode 1 buf20_tail 20 empty_header \<noteq> Decode 1 buf20 20 empty_header"
  by (simp add: buf20_same_bytes buf20_decoded buf20_tail_decoded)

end
